theory Spec2Isabelle
  imports Complex_Main
begin

section \<open>Newton optimisation of a sinusoid fit: the notebook's functions\<close>

text \<open>
  The notebook \<^verbatim>\<open>NewtonOptimization.ipynb\<close> fits the three parameters of
  \<open>y = A sin (W t + Z)\<close> to sampled data. Its code cells define \<^verbatim>\<open>func\<close>,
  \<^verbatim>\<open>funcDeriv\<close>, \<^verbatim>\<open>lossFunction\<close>, \<^verbatim>\<open>lossFunctionGradient\<close> and
  \<^verbatim>\<open>newtonMethod\<close>; they are embedded here one by one.

  Conventions of the embedding:
  \<^item> a one-dimensional numpy array is a list, a two-dimensional one a list of rows;
  \<^item> in the forward model, its derivatives, the gradient and the Newton loop, float64
    numbers are read as real numbers: what is stated about them are formulas and the
    flow of control. The loss function is embedded in float64 arithmetic, with rounding,
    underflow, overflow, infinities and \<^verbatim>\<open>nan\<close>, because what is stated about it is the
    sign and the exact zero of the number it returns;
  \<^item> an exception is a value \<open>Inl e\<close> of the sum type \<open>error + 'a\<close>; the first exception
    raised ends the computation, as in Python;
  \<^item> the module-level arrays \<^verbatim>\<open>t_data\<close> and \<^verbatim>\<open>y_data\<close>, which the loss functions read
    as globals, are explicit leading arguments;
  \<^item> \<^verbatim>\<open>np.linalg.inv\<close> belongs to numpy, not to the notebook: \<open>newtonMethod\<close> takes the
    inversion routine as its first argument \<open>invert\<close>, and \<open>linalg_inv\<close> below is its
    reading in exact arithmetic.
\<close>

subsection \<open>Errors\<close>

datatype error =
    SingularMatrixError   \<comment> \<open>numpy's \<^verbatim>\<open>LinAlgError("Singular matrix")\<close>\<close>
  | NotSquareError        \<comment> \<open>numpy's \<^verbatim>\<open>LinAlgError\<close> for a matrix that is not square\<close>
  | ValueError            \<comment> \<open>shapes that do not fit, or unpacking the wrong number of values\<close>

type_synonym vec = "real list"
type_synonym mat = "real list list"

definition ebind :: "error + 'a \<Rightarrow> ('a \<Rightarrow> error + 'b) \<Rightarrow> error + 'b" where
  "ebind r f = (case r of Inl e \<Rightarrow> Inl e | Inr x \<Rightarrow> f x)"

subsection \<open>The numpy operations the notebook uses\<close>

text \<open>\<^verbatim>\<open>A, W, Z = params\<close>: unpacking raises \<^verbatim>\<open>ValueError\<close> unless there are three values.\<close>

definition unpack3 :: "'a list \<Rightarrow> error + 'a \<times> 'a \<times> 'a" where
  "unpack3 params = (case params of [A, W, Z] \<Rightarrow> Inr (A, W, Z) | _ \<Rightarrow> Inl ValueError)"

text \<open>
  \<^verbatim>\<open>a - b\<close> on one-dimensional arrays, with numpy's broadcasting: equal lengths subtract
  element by element, an array of length one is stretched to the other's length, any
  other pair of lengths raises \<^verbatim>\<open>ValueError\<close>.
\<close>

definition np_sub :: "vec \<Rightarrow> vec \<Rightarrow> error + vec" where
  "np_sub a b =
     (if length a = length b then Inr (map2 (-) a b)
      else if length a = 1 then Inr (map (\<lambda>y. hd a - y) b)
      else if length b = 1 then Inr (map (\<lambda>x. x - hd b) a)
      else Inl ValueError)"

text \<open>\<^verbatim>\<open>grad.reshape(-1, 1)\<close>: a vector as a one-column matrix. \<^verbatim>\<open>grad.T\<close> is \<^const>\<open>transpose\<close>.\<close>

definition reshape_col :: "vec \<Rightarrow> mat" where
  "reshape_col v = map (\<lambda>x. [x]) v"

text \<open>\<^verbatim>\<open>m.flatten()\<close>: the rows of a matrix one after the other.\<close>

definition flatten :: "mat \<Rightarrow> vec" where
  "flatten m = concat m"

text \<open>
  \<^verbatim>\<open>np.dot\<close> of a matrix with a vector, and of two matrices. Every row of the left
  operand must be as long as the right operand, else numpy raises \<^verbatim>\<open>ValueError\<close>.
\<close>

definition inner :: "vec \<Rightarrow> vec \<Rightarrow> real" where
  "inner u v = sum_list (map2 (*) u v)"

definition np_dot_vec :: "mat \<Rightarrow> vec \<Rightarrow> error + vec" where
  "np_dot_vec a v =
     (if list_all (\<lambda>row. length row = length v) a then Inr (map (\<lambda>row. inner row v) a)
      else Inl ValueError)"

definition np_dot :: "mat \<Rightarrow> mat \<Rightarrow> error + mat" where
  "np_dot a b =
     (if list_all (\<lambda>row. length row = length b) a
      then Inr (map (\<lambda>row. map (\<lambda>col. inner row col) (transpose b)) a)
      else Inl ValueError)"


text \<open>\<^verbatim>\<open>np.linalg.norm\<close> of a vector: the square root of the sum of the squares.\<close>

definition norm2 :: "vec \<Rightarrow> real" where
  "norm2 v = sqrt (inner v v)"

subsection \<open>Matrix inversion in exact arithmetic\<close>

text \<open>
  Modelled from the spec: \<^verbatim>\<open>np.linalg.inv\<close> is library code and not part of the
  repository. The spec says that inversion signals a SingularMatrixError when the matrix
  is not invertible; in exact arithmetic that is a zero determinant. \<open>linalg_inv\<close> is
  the inverse by cofactors over the reals: the determinant is expanded along the first
  row, and entry \<open>(i, j)\<close> of the inverse is the cofactor of entry \<open>(j, i)\<close> divided by the
  determinant.
\<close>

definition drop_nth :: "nat \<Rightarrow> 'a list \<Rightarrow> 'a list" where
  "drop_nth j xs = take j xs @ drop (Suc j) xs"

function det :: "mat \<Rightarrow> real" where
  "det [] = 1"
| "det (r # rs) =
     sum_list (map (\<lambda>j. (- 1) ^ j * r ! j * det (map (drop_nth j) rs)) [0..<length r])"
  by pat_completeness auto
termination
  by (relation "measure length") auto

definition minor :: "nat \<Rightarrow> nat \<Rightarrow> mat \<Rightarrow> mat" where
  "minor i j m = map (drop_nth j) (drop_nth i m)"

definition linalg_inv :: "mat \<Rightarrow> error + mat" where
  "linalg_inv m =
     (let n = length m in
      if \<not> list_all (\<lambda>row. length row = n) m then Inl NotSquareError
      else if det m = 0 then Inl SingularMatrixError
      else Inr (map (\<lambda>i. map (\<lambda>j. (- 1) ^ (i + j) * det (minor j i m) / det m) [0..<n])
                  [0..<n]))"

subsection \<open>The forward model and its partial derivatives\<close>

text \<open>
  \<^verbatim>\<open>
  def func(t, params):
      A, W, Z = params
      return A * np.sin(W * t + Z)
  \<close>
\<close>

definition func :: "vec \<Rightarrow> vec \<Rightarrow> error + vec" where
  "func t params =
     ebind (unpack3 params) (\<lambda>(A, W, Z). Inr (map (\<lambda>t. A * sin (W * t + Z)) t))"

text \<open>
  \<^verbatim>\<open>
  def funcDeriv(t, params):
      A, W, Z = params
      dA = np.sin(W * t + Z)
      dW = A * t * np.cos(W * t + Z)
      dZ = A * np.cos(W * t + Z)
      return np.array([dA, dW, dZ])
  \<close>
\<close>

definition funcDeriv :: "vec \<Rightarrow> vec \<Rightarrow> error + mat" where
  "funcDeriv t params =
     ebind (unpack3 params) (\<lambda>(A, W, Z).
       let dA = map (\<lambda>t. sin (W * t + Z)) t;
           dW = map (\<lambda>t. A * t * cos (W * t + Z)) t;
           dZ = map (\<lambda>t. A * cos (W * t + Z)) t
       in Inr [dA, dW, dZ])"

subsection \<open>float64 arithmetic\<close>

text \<open>
  A float64 is a finite number, one of the two infinities or \<^verbatim>\<open>nan\<close>. The two zeros of
  the format are one value here: their sign shows only in a division by zero, and the
  loss function divides by a length.
\<close>

datatype float64 = Finite real | PosInf | NegInf | NaN

text \<open>Rounding to the nearest integer, a tie to the even one.\<close>

definition round_even :: "real \<Rightarrow> int" where
  "round_even q =
     (let f = \<lfloor>q\<rfloor>; d = q - of_int f
      in if d < 1 / 2 then f else if 1 / 2 < d then f + 1 else if even f then f else f + 1)"

text \<open>
  The binary exponent of a number; below \<open>2\<^sup>-\<^sup>1\<^sup>0\<^sup>2\<^sup>2\<close> the numbers are subnormal and share
  the exponent \<open>-1022\<close>.
\<close>

definition exponent :: "real \<Rightarrow> int" where
  "exponent x = (if \<bar>x\<bar> < 2 powi (- 1022) then - 1022 else \<lfloor>log 2 \<bar>x\<bar>\<rfloor>)"

text \<open>
  The float64 nearest to a real number, ties to even: a multiple of the unit in the last
  of the 53 places of its exponent. From \<open>2\<^sup>1\<^sup>0\<^sup>2\<^sup>4 - 2\<^sup>9\<^sup>7\<^sup>0\<close> on, half a unit above the
  largest finite float64, the result is an infinity.
\<close>

definition round64 :: "real \<Rightarrow> float64" where
  "round64 x =
     (if 2 powi 1024 - 2 powi 970 \<le> \<bar>x\<bar> then (if 0 < x then PosInf else NegInf)
      else let ulp = 2 powi (exponent x - 52)
           in Finite (of_int (round_even (x / ulp)) * ulp))"

text \<open>
  The operations: on finite numbers the exact result, rounded; with an infinity or
  \<^verbatim>\<open>nan\<close> the result that IEEE 754 gives.
\<close>

definition infinity :: "bool \<Rightarrow> float64" where
  "infinity positive = (if positive then PosInf else NegInf)"

definition f_neg :: "float64 \<Rightarrow> float64" where
  "f_neg a =
     (case a of Finite x \<Rightarrow> Finite (- x) | PosInf \<Rightarrow> NegInf | NegInf \<Rightarrow> PosInf | NaN \<Rightarrow> NaN)"

fun f_add :: "float64 \<Rightarrow> float64 \<Rightarrow> float64" where
  "f_add (Finite x) (Finite y) = round64 (x + y)"
| "f_add NaN b = NaN"
| "f_add a NaN = NaN"
| "f_add PosInf NegInf = NaN"
| "f_add NegInf PosInf = NaN"
| "f_add PosInf b = PosInf"
| "f_add a PosInf = PosInf"
| "f_add NegInf b = NegInf"
| "f_add a NegInf = NegInf"

definition f_sub :: "float64 \<Rightarrow> float64 \<Rightarrow> float64" where
  "f_sub a b = f_add a (f_neg b)"

fun f_mul :: "float64 \<Rightarrow> float64 \<Rightarrow> float64" where
  "f_mul (Finite x) (Finite y) = round64 (x * y)"
| "f_mul NaN b = NaN"
| "f_mul a NaN = NaN"
| "f_mul (Finite x) b = (if x = 0 then NaN else infinity ((0 < x) = (b = PosInf)))"
| "f_mul a (Finite y) = (if y = 0 then NaN else infinity ((0 < y) = (a = PosInf)))"
| "f_mul a b = infinity (a = b)"

fun f_div :: "float64 \<Rightarrow> float64 \<Rightarrow> float64" where
  "f_div (Finite x) (Finite y) =
     (if y = 0 then (if x = 0 then NaN else infinity (0 < x)) else round64 (x / y))"
| "f_div NaN b = NaN"
| "f_div a NaN = NaN"
| "f_div (Finite x) b = Finite 0"
| "f_div a (Finite y) = infinity ((0 \<le> y) = (a = PosInf))"
| "f_div a b = NaN"

text \<open>\<^verbatim>\<open>a - b\<close> on one-dimensional float64 arrays, with the broadcasting of \<open>np_sub\<close>.\<close>

definition np_sub_f64 :: "float64 list \<Rightarrow> float64 list \<Rightarrow> error + float64 list" where
  "np_sub_f64 a b =
     (if length a = length b then Inr (map2 f_sub a b)
      else if length a = 1 then Inr (map (\<lambda>y. f_sub (hd a) y) b)
      else if length b = 1 then Inr (map (\<lambda>x. f_sub x (hd b)) a)
      else Inl ValueError)"

text \<open>
  \<^verbatim>\<open>np.sin\<close> and \<^verbatim>\<open>np.sum\<close> belong to numpy: how the sine is rounded and in which order
  the sum adds are the library's matter. The float64 functions below take them as the
  arguments \<open>np_sin\<close> and \<open>np_sum\<close>. \<open>sin64\<close> is the sine rounded to the nearest float64, and
  \<open>sum_seq\<close> adds from left to right, starting from zero; they stand for the two routines
  where a concrete one is needed.
\<close>

definition sin64 :: "float64 \<Rightarrow> float64" where
  "sin64 a = (case a of Finite x \<Rightarrow> round64 (sin x) | _ \<Rightarrow> NaN)"

definition sum_seq :: "float64 list \<Rightarrow> float64" where
  "sum_seq xs = foldl f_add (Finite 0) xs"

text \<open>A float64 that is not below zero: a finite number from zero on, \<^verbatim>\<open>inf\<close> or \<^verbatim>\<open>nan\<close>.\<close>

definition not_negative :: "float64 \<Rightarrow> bool" where
  "not_negative a =
     (case a of Finite x \<Rightarrow> 0 \<le> x | PosInf \<Rightarrow> True | NegInf \<Rightarrow> False | NaN \<Rightarrow> True)"

definition is_finite :: "float64 \<Rightarrow> bool" where
  "is_finite a = (case a of Finite x \<Rightarrow> True | _ \<Rightarrow> False)"

subsection \<open>The loss\<close>

text \<open>
  The forward model \<^verbatim>\<open>func\<close> once more, now as the float64 computation
  \<^verbatim>\<open>A * np.sin(W * t + Z)\<close> that the loss function runs.
\<close>

definition func_f64 ::
  "(float64 \<Rightarrow> float64) \<Rightarrow> float64 list \<Rightarrow> float64 list \<Rightarrow> error + float64 list" where
  "func_f64 np_sin t params =
     ebind (unpack3 params) (\<lambda>(A, W, Z).
       Inr (map (\<lambda>t. f_mul A (np_sin (f_add (f_mul W t) Z))) t))"

text \<open>
  \<^verbatim>\<open>
  def lossFunction(params):
      return np.sum((y_data - func(t_data, params)) ** 2)/ len(y_data)
  \<close>
  \<^verbatim>\<open>** 2\<close> multiplies a number with itself. \<^verbatim>\<open>len(y_data)\<close> is converted to float64 for
  the division; with an empty \<^verbatim>\<open>y_data\<close> the quotient is \<^verbatim>\<open>0.0 / 0\<close>, which is
  \<^verbatim>\<open>nan\<close>.
\<close>

definition lossFunction ::
  "(float64 \<Rightarrow> float64) \<Rightarrow> (float64 list \<Rightarrow> float64) \<Rightarrow> float64 list \<Rightarrow> float64 list
     \<Rightarrow> float64 list \<Rightarrow> error + float64" where
  "lossFunction np_sin np_sum t_data y_data params =
     ebind (func_f64 np_sin t_data params) (\<lambda>pred.
     ebind (np_sub_f64 y_data pred) (\<lambda>err.
       Inr (f_div (np_sum (map (\<lambda>e. f_mul e e) err)) (round64 (real (length y_data))))))"

subsection \<open>The gradient of the loss\<close>

text \<open>
  \<^verbatim>\<open>
  def lossFunctionGradient(params):
      error = y_data - func(t_data, params)
      deriv = funcDeriv(t_data, params)
      grad = -2 * np.dot(deriv, error)
      return grad
  \<close>
\<close>

definition lossFunctionGradient :: "vec \<Rightarrow> vec \<Rightarrow> vec \<Rightarrow> error + vec" where
  "lossFunctionGradient t_data y_data params =
     ebind (func t_data params) (\<lambda>pred.
     ebind (np_sub y_data pred) (\<lambda>err.
     ebind (funcDeriv t_data params) (\<lambda>deriv.
     ebind (np_dot_vec deriv err) (\<lambda>d.
       Inr (map (\<lambda>x. - 2 * x) d)))))"

subsection \<open>The Newton loop\<close>

text \<open>
  \<^verbatim>\<open>
  def newtonMethod(func, lostFunction, lossFunctionGradient, params_initial,
                   max_iter=100, tol=1e-6):
      params = params_initial
      for _ in range(max_iter):
          grad = lossFunctionGradient(params)
          grad = grad.reshape(-1, 1)
          params_new = params - np.linalg.inv(np.dot(grad, grad.T)).dot(grad).flatten()
          if np.linalg.norm(params_new - params) < tol:
              break
          params = params_new
      return params
  \<close>
  \<open>newton_iteration\<close> is the body of the loop up to the convergence test. It either
  raises, or it computes \<^verbatim>\<open>params_new\<close> and says whether the test holds.
\<close>

datatype outcome =
    Failed error      \<comment> \<open>an exception left the body\<close>
  | Converged vec     \<comment> \<open>the test holds; the argument is \<^verbatim>\<open>params_new\<close>\<close>
  | Continue vec      \<comment> \<open>the test fails; the argument is \<^verbatim>\<open>params_new\<close>\<close>

definition newton_iteration ::
  "(mat \<Rightarrow> error + mat) \<Rightarrow> (vec \<Rightarrow> error + vec) \<Rightarrow> real \<Rightarrow> vec \<Rightarrow> outcome" where
  "newton_iteration invert lossGradient tol params =
     (case
        ebind (lossGradient params) (\<lambda>g.
        let grad = reshape_col g in
        ebind (np_dot grad (transpose grad)) (\<lambda>h.
        ebind (invert h) (\<lambda>h_inv.
        ebind (np_dot h_inv grad) (\<lambda>step.
        ebind (np_sub params (flatten step)) (\<lambda>params_new.
        ebind (np_sub params_new params) (\<lambda>d.
          Inr (params_new, norm2 d)))))))
      of Inl e \<Rightarrow> Failed e
       | Inr (params_new, n) \<Rightarrow>
           if n < tol then Converged params_new else Continue params_new)"

text \<open>
  The loop itself, on the number of iterations that \<^verbatim>\<open>range(max_iter)\<close> still has to
  give. On \<^verbatim>\<open>break\<close> the function returns \<^verbatim>\<open>params\<close>, which the body has not
  assigned yet; otherwise \<^verbatim>\<open>params = params_new\<close> and the loop goes on.
\<close>

fun newton_loop ::
  "(mat \<Rightarrow> error + mat) \<Rightarrow> (vec \<Rightarrow> error + vec) \<Rightarrow> real \<Rightarrow> nat \<Rightarrow> vec \<Rightarrow> error + vec" where
  "newton_loop invert lossGradient tol 0 params = Inr params"
| "newton_loop invert lossGradient tol (Suc k) params =
     (case newton_iteration invert lossGradient tol params of
        Failed e \<Rightarrow> Inl e
      | Converged params_new \<Rightarrow> Inr params
      | Continue params_new \<Rightarrow> newton_loop invert lossGradient tol k params_new)"

text \<open>
  \<^verbatim>\<open>range(max_iter)\<close> is empty for a negative \<^verbatim>\<open>max_iter\<close>, hence \<^const>\<open>nat\<close>. The
  arguments \<^verbatim>\<open>func\<close> and \<^verbatim>\<open>lostFunction\<close> may be any Python objects. The parameters
  \<^verbatim>\<open>func\<close> and \<^verbatim>\<open>lossFunctionGradient\<close> shadow the notebook's functions of these names;
  here they are written \<open>f\<close> and \<open>lossGradient\<close>. The defaults \<^verbatim>\<open>max_iter=100\<close> and
  \<^verbatim>\<open>tol=1e-6\<close> are passed explicitly, as \<open>100\<close> and \<open>1 / 1000000\<close>.
\<close>

definition newtonMethod ::
  "(mat \<Rightarrow> error + mat) \<Rightarrow> 'f \<Rightarrow> 'l \<Rightarrow> (vec \<Rightarrow> error + vec) \<Rightarrow> vec \<Rightarrow> int \<Rightarrow> real
     \<Rightarrow> error + vec" where
  "newtonMethod invert f lostFunction lossGradient params_initial max_iter tol =
     newton_loop invert lossGradient tol (nat max_iter) params_initial"

subsection \<open>Following a run\<close>

text \<open>
  \<open>params_at k\<close> is the value of the variable \<^verbatim>\<open>params\<close> when iteration \<open>k\<close> (counted from
  0) begins, if the loop gets that far: every earlier iteration must have ended without
  an exception and without \<^verbatim>\<open>break\<close>.
\<close>

fun params_at ::
  "(mat \<Rightarrow> error + mat) \<Rightarrow> (vec \<Rightarrow> error + vec) \<Rightarrow> real \<Rightarrow> nat \<Rightarrow> vec \<Rightarrow> vec option" where
  "params_at invert lossGradient tol 0 params = Some params"
| "params_at invert lossGradient tol (Suc k) params =
     (case newton_iteration invert lossGradient tol params of
        Continue params_new \<Rightarrow> params_at invert lossGradient tol k params_new
      | _ \<Rightarrow> None)"

text \<open>
  What a run costs: the iterations begun, the calls of \<^verbatim>\<open>lossFunctionGradient\<close> and the
  calls of the inversion routine. An iteration calls the gradient once; it reaches the
  inversion once if the gradient returned and the outer product was formed.
\<close>

record cost =
  iterations :: nat
  grad_evals :: nat
  inversions :: nat

definition inversions_in ::
  "(vec \<Rightarrow> error + vec) \<Rightarrow> vec \<Rightarrow> nat" where
  "inversions_in lossGradient params =
     (case lossGradient params of
        Inl e \<Rightarrow> 0
      | Inr g \<Rightarrow>
          (case np_dot (reshape_col g) (transpose (reshape_col g)) of
             Inl e \<Rightarrow> 0 | Inr h \<Rightarrow> 1))"

fun newton_cost ::
  "(mat \<Rightarrow> error + mat) \<Rightarrow> (vec \<Rightarrow> error + vec) \<Rightarrow> real \<Rightarrow> nat \<Rightarrow> vec \<Rightarrow> cost" where
  "newton_cost invert lossGradient tol 0 params =
     \<lparr>iterations = 0, grad_evals = 0, inversions = 0\<rparr>"
| "newton_cost invert lossGradient tol (Suc k) params =
     (let rest =
        (case newton_iteration invert lossGradient tol params of
           Continue params_new \<Rightarrow> newton_cost invert lossGradient tol k params_new
         | _ \<Rightarrow> \<lparr>iterations = 0, grad_evals = 0, inversions = 0\<rparr>)
      in \<lparr>iterations = Suc (iterations rest),
          grad_evals = Suc (grad_evals rest),
          inversions = inversions_in lossGradient params + inversions rest\<rparr>)"

definition newtonMethod_cost ::
  "(mat \<Rightarrow> error + mat) \<Rightarrow> 'f \<Rightarrow> 'l \<Rightarrow> (vec \<Rightarrow> error + vec) \<Rightarrow> vec \<Rightarrow> int \<Rightarrow> real \<Rightarrow> cost" where
  "newtonMethod_cost invert f lostFunction lossGradient params_initial max_iter tol =
     newton_cost invert lossGradient tol (nat max_iter) params_initial"

subsection \<open>Example inputs\<close>

text \<open>
  The gradient of the one-parameter loss \<open>c * x\<close>, as a function that \<open>newtonMethod\<close> can
  be given for \<^verbatim>\<open>lossFunctionGradient\<close>; and a gradient routine that always raises.
\<close>

definition linear_loss_gradient :: "real \<Rightarrow> vec \<Rightarrow> error + vec" where
  "linear_loss_gradient c params = Inr [c]"

definition raising_gradient :: "vec \<Rightarrow> error + vec" where
  "raising_gradient params = Inl ValueError"

section \<open>Basic facts\<close>

lemma inner_self_nonneg: "0 \<le> inner v v"
  unfolding inner_def by (induction v) auto

lemma norm2_nonneg: "0 \<le> norm2 v"
  unfolding norm2_def using inner_self_nonneg by simp

lemma norm2_single: "norm2 [x] = \<bar>x\<bar>"
  by (simp add: norm2_def inner_def)

lemma transpose_reshape_col: "transpose (reshape_col g) = (if g = [] then [] else [g])"
proof (cases "g = []")
  case True
  then show ?thesis by (simp add: reshape_col_def)
next
  case False
  have "transpose (reshape_col g) =
        map (\<lambda>i. map (\<lambda>j. reshape_col g ! j ! i) [0..<length (reshape_col g)]) [0..<1]"
    by (rule transpose_rectangle) (use False in \<open>auto simp: reshape_col_def\<close>)
  also have "\<dots> = [g]"
    by (auto simp: reshape_col_def intro!: nth_equalityI)
  finally show ?thesis using False by simp
qed

lemma transpose_row: "transpose [g] = reshape_col g"
proof -
  have "transpose [g] = map (\<lambda>i. map (\<lambda>j. [g] ! j ! i) [0..<length [g]]) [0..<length g]"
    by (rule transpose_rectangle) auto
  also have "\<dots> = reshape_col g"
    by (auto simp: reshape_col_def intro!: nth_equalityI)
  finally show ?thesis .
qed

text \<open>The product \<^verbatim>\<open>np.dot(grad, grad.T)\<close> is the outer product and never raises.\<close>

lemma np_dot_outer:
  "np_dot (reshape_col g) (transpose (reshape_col g)) = Inr (map (\<lambda>a. map (\<lambda>b. a * b) g) g)"
proof (cases "g = []")
  case True
  then show ?thesis by (simp add: np_dot_def reshape_col_def)
next
  case False
  have all: "list_all (\<lambda>row. length row = length [g]) (reshape_col g)"
    by (simp add: reshape_col_def list_all_iff)
  show ?thesis
    using False all
    by (simp add: np_dot_def transpose_reshape_col transpose_row)
       (simp add: reshape_col_def inner_def)
qed

lemma inversions_in_le: "inversions_in lossGradient params \<le> 1"
  by (simp add: inversions_in_def split: sum.splits)

lemma inversions_in_Inr: "lossGradient params = Inr g \<Longrightarrow> inversions_in lossGradient params = 1"
  by (simp add: inversions_in_def np_dot_outer)

subsection \<open>The cost of a run\<close>

lemma newton_cost_grad_evals:
  "grad_evals (newton_cost invert lossGradient tol k params) =
   iterations (newton_cost invert lossGradient tol k params)"
  by (induction k arbitrary: params) (auto simp: Let_def split: outcome.splits)

lemma newton_cost_iterations_le:
  "iterations (newton_cost invert lossGradient tol k params) \<le> k"
  by (induction k arbitrary: params) (auto simp: Let_def split: outcome.splits)

lemma newton_cost_inversions_le:
  "inversions (newton_cost invert lossGradient tol k params) \<le>
   iterations (newton_cost invert lossGradient tol k params)"
proof (induction k arbitrary: params)
  case 0
  then show ?case by simp
next
  case (Suc k)
  have one: "inversions_in lossGradient params \<le> 1" by (rule inversions_in_le)
  show ?case
  proof (cases "newton_iteration invert lossGradient tol params")
    case (Continue params_new)
    with Suc [of params_new] one show ?thesis by (simp add: Let_def)
  qed (use one in \<open>simp_all add: Let_def\<close>)
qed

lemma newton_cost_iterations_pos:
  "0 < iterations (newton_cost invert lossGradient tol (Suc k) params)"
  by (simp add: Let_def)

text \<open>
  A run that returns normally before the iterations are used up left the loop by
  \<^verbatim>\<open>break\<close>: its last iteration began from the returned vector and passed the test.
\<close>

lemma newton_loop_early_exit:
  "newton_loop invert lossGradient tol k params = Inr r \<Longrightarrow>
   iterations (newton_cost invert lossGradient tol k params) < k \<Longrightarrow>
   \<exists>params_new.
     params_at invert lossGradient tol
       (iterations (newton_cost invert lossGradient tol k params) - 1) params = Some r \<and>
     newton_iteration invert lossGradient tol r = Converged params_new"
proof (induction k arbitrary: params)
  case 0
  then show ?case by simp
next
  case (Suc k)
  show ?case
  proof (cases "newton_iteration invert lossGradient tol params")
    case (Failed e)
    with Suc.prems show ?thesis by simp
  next
    case (Converged params_new)
    with Suc.prems show ?thesis by (auto simp: Let_def)
  next
    case (Continue params_new)
    let ?rest = "newton_cost invert lossGradient tol k params_new"
    from Continue Suc.prems have loop: "newton_loop invert lossGradient tol k params_new = Inr r"
      and less: "iterations ?rest < k"
      by (simp_all add: Let_def)
    from less obtain k' where k: "k = Suc k'" by (cases k) auto
    then have "0 < iterations ?rest" using newton_cost_iterations_pos by simp
    then obtain j where j: "iterations ?rest = Suc j" by (cases "iterations ?rest") auto
    from Suc.IH [OF loop less] obtain pn where
      "params_at invert lossGradient tol j params_new = Some r"
      "newton_iteration invert lossGradient tol r = Converged pn"
      using j by auto
    with Continue j show ?thesis by (auto simp: Let_def)
  qed
qed

subsection \<open>One iteration at a time\<close>


lemma newton_loop_Converged:
  "newton_iteration invert lossGradient tol params = Converged params_new \<Longrightarrow> 0 < k \<Longrightarrow>
   newton_loop invert lossGradient tol k params = Inr params"
  by (cases k) auto

lemma newton_cost_stop:
  "\<forall>params_new. newton_iteration invert lossGradient tol params \<noteq> Continue params_new \<Longrightarrow>
   0 < k \<Longrightarrow>
   newton_cost invert lossGradient tol k params =
   \<lparr>iterations = 1, grad_evals = 1, inversions = inversions_in lossGradient params\<rparr>"
  by (cases k; cases "newton_iteration invert lossGradient tol params") auto

lemma inner_sum_nth:
  "length u = length v \<Longrightarrow> inner u v = (\<Sum>i<length u. u ! i * v ! i)"
  by (simp add: inner_def sum_list_sum_nth atLeast0LessThan)

lemma func_3: "func t_data [A, W, Z] = Inr (map (\<lambda>t. A * sin (W * t + Z)) t_data)"
  by (simp add: func_def unpack3_def ebind_def)

lemma funcDeriv_3:
  "funcDeriv t_data [A, W, Z] =
     Inr [map (\<lambda>t. sin (W * t + Z)) t_data,
          map (\<lambda>t. A * t * cos (W * t + Z)) t_data,
          map (\<lambda>t. A * cos (W * t + Z)) t_data]"
  by (simp add: funcDeriv_def unpack3_def ebind_def)

lemma np_sub_same_length: "length a = length b \<Longrightarrow> np_sub a b = Inr (map2 (-) a b)"
  by (simp add: np_sub_def)



subsection \<open>The inversion model\<close>


lemma linalg_inv_2:
  "linalg_inv [[a, b], [c, d]] =
     (if a * d - b * c = 0 then Inl SingularMatrixError
      else Inr [[d / (a * d - b * c), - b / (a * d - b * c)],
                [- c / (a * d - b * c), a / (a * d - b * c)]])"
  by (simp add: linalg_inv_def minor_def drop_nth_def)

lemma det_3:
  "det [[a, b, c], [d, e, f], [g, h, i]] =
     a * (e * i - f * h) - b * (d * i - f * g) + c * (d * h - e * g)"
  by (simp add: drop_nth_def algebra_simps)

lemma linalg_inv_3_inverse:
  assumes "linalg_inv [[a, b, c], [d, e, f], [g, h, i]] = Inr m"
  shows "np_dot [[a, b, c], [d, e, f], [g, h, i]] m = Inr [[1, 0, 0], [0, 1, 0], [0, 0, 1]]"
proof -
  define D where "D = a * (e * i - f * h) - b * (d * i - f * g) + c * (d * h - e * g)"
  have det: "det [[a, b, c], [d, e, f], [g, h, i]] = D" unfolding D_def by (rule det_3)
  from assms have nz: "D \<noteq> 0"
    unfolding linalg_inv_def det by (auto simp: Let_def split: if_splits)
  have neg: "- ((x - y) / D) = (y - x) / D" for x y :: real
    by (metis minus_diff_eq minus_divide_left)
  from assms nz have "m =
     [[(e * i - f * h) / D, - ((b * i - c * h) / D), (b * f - c * e) / D],
      [(f * g - d * i) / D, - ((c * g - a * i) / D), (c * d - a * f) / D],
      [(d * h - e * g) / D, - ((a * h - b * g) / D), (a * e - b * d) / D]]"
    unfolding linalg_inv_def det by (auto simp: Let_def minor_def drop_nth_def)
  then have m: "m =
     [[(e * i - f * h) / D, (c * h - b * i) / D, (b * f - c * e) / D],
      [(f * g - d * i) / D, (a * i - c * g) / D, (c * d - a * f) / D],
      [(d * h - e * g) / D, (b * g - a * h) / D, (a * e - b * d) / D]]"
    by (simp only: neg)
  have row: "p * x / D + (q * y / D + r * z / D) = (p * x + q * y + r * z) / D"
    for p q r x y z by (simp add: add_divide_distrib)
  have one: "n = D \<Longrightarrow> n / D = 1" and zero: "n = 0 \<Longrightarrow> n / D = 0" for n
    using nz by simp_all
  have entries:
    "(a * (e * i - f * h) + b * (f * g - d * i) + c * (d * h - e * g)) / D = 1"
    "(a * (c * h - b * i) + b * (a * i - c * g) + c * (b * g - a * h)) / D = 0"
    "(a * (b * f - c * e) + b * (c * d - a * f) + c * (a * e - b * d)) / D = 0"
    "(d * (e * i - f * h) + e * (f * g - d * i) + f * (d * h - e * g)) / D = 0"
    "(d * (c * h - b * i) + e * (a * i - c * g) + f * (b * g - a * h)) / D = 1"
    "(d * (b * f - c * e) + e * (c * d - a * f) + f * (a * e - b * d)) / D = 0"
    "(g * (e * i - f * h) + h * (f * g - d * i) + i * (d * h - e * g)) / D = 0"
    "(g * (c * h - b * i) + h * (a * i - c * g) + i * (b * g - a * h)) / D = 0"
    "(g * (b * f - c * e) + h * (c * d - a * f) + i * (a * e - b * d)) / D = 1"
    by (rule one zero, simp add: D_def algebra_simps)+
  have t: "transpose [[x1, x2, x3], [y1, y2, y3], [z1, z2, z3]] =
      [[x1, y1, z1], [x2, y2, z2], [x3, y3, z3]]" for x1 x2 x3 y1 y2 y3 z1 z2 z3 :: real
    by simp
  show ?thesis
    unfolding m np_dot_def t inner_def
    by (simp add: row entries del: distrib_left_numeral)
qed


subsection \<open>Runs that reach a given iteration\<close>

lemma params_at_loop:
  "params_at invert lossGradient tol k params = Some p \<Longrightarrow>
   newton_loop invert lossGradient tol (k + m) params = newton_loop invert lossGradient tol m p"
  by (induction k arbitrary: params) (auto split: outcome.splits)

lemma params_at_cost:
  "params_at invert lossGradient tol k params = Some p \<Longrightarrow>
   iterations (newton_cost invert lossGradient tol (k + m) params) =
   k + iterations (newton_cost invert lossGradient tol m p)"
  by (induction k arbitrary: params) (auto simp: Let_def split: outcome.splits)

lemma params_at_Suc:
  "params_at invert lossGradient tol (Suc k) params = Some r \<longleftrightarrow>
   (\<exists>p. params_at invert lossGradient tol k params = Some p \<and>
        newton_iteration invert lossGradient tol p = Continue r)"
proof (induction k arbitrary: params)
  case 0
  then show ?case by (auto split: outcome.splits)
next
  case (Suc k)
  show ?case
  proof (cases "newton_iteration invert lossGradient tol params")
    case (Continue params_new)
    with Suc [of params_new] show ?thesis by simp
  qed simp_all
qed

lemma params_at_all_Continue:
  "(\<And>k. k < n \<Longrightarrow> \<exists>p params_new. params_at invert lossGradient tol k params = Some p \<and>
        newton_iteration invert lossGradient tol p = Continue params_new) \<Longrightarrow>
   \<exists>r. params_at invert lossGradient tol n params = Some r"
proof (induction n)
  case 0
  then show ?case by simp
next
  case (Suc n)
  from Suc.prems [of n] obtain p params_new where
    "params_at invert lossGradient tol n params = Some p"
    "newton_iteration invert lossGradient tol p = Continue params_new" by auto
  then have "params_at invert lossGradient tol (Suc n) params = Some params_new"
    using params_at_Suc [of invert lossGradient tol n params params_new] by blast
  then show ?case by blast
qed

lemma newton_iteration_Converged_close:
  "newton_iteration invert lossGradient tol params = Converged params_new \<Longrightarrow>
   \<exists>d. np_sub params_new params = Inr d \<and> norm2 d < tol"
  by (auto simp: newton_iteration_def ebind_def Let_def split: sum.splits if_splits)

lemma newton_iteration_Continue_inverts:
  "newton_iteration invert lossGradient tol params = Continue params_new \<Longrightarrow>
   inversions_in lossGradient params = 1"
  by (auto simp: newton_iteration_def ebind_def inversions_in_def np_dot_outer split: sum.splits)

lemma params_at_inversions:
  "params_at invert lossGradient tol k params = Some p \<Longrightarrow>
   inversions (newton_cost invert lossGradient tol (k + m) params) =
   k + inversions (newton_cost invert lossGradient tol m p)"
  by (induction k arbitrary: params)
     (auto simp: Let_def newton_iteration_Continue_inverts split: outcome.splits)

subsection \<open>A zero gradient\<close>

lemma linalg_inv_zero3:
  "linalg_inv [[0, 0, 0], [0, 0, 0], [0, 0, 0]] = Inl SingularMatrixError"
  by (simp add: linalg_inv_def)

lemma zero_gradient_fails:
  assumes "lossGradient params = Inr [0, 0, 0]"
    and "invert [[0, 0, 0], [0, 0, 0], [0, 0, 0]] = Inl e"
  shows "newton_iteration invert lossGradient tol params = Failed e"
  by (simp add: newton_iteration_def assms ebind_def np_dot_outer)


subsection \<open>The inverse of an outer product\<close>





subsection \<open>float64 rounding\<close>

lemma round64_zero: "round64 0 = Finite 0"
  by (simp add: round64_def round_even_def exponent_def)

lemma round64_one: "round64 1 = Finite 1"
  by (simp add: round64_def round_even_def exponent_def)

lemma round_even_close: "\<bar>of_int (round_even q) - q\<bar> \<le> 1 / 2"
  unfolding round_even_def Let_def by (auto simp: abs_if) linarith+

lemma round_even_nonneg: "0 \<le> q \<Longrightarrow> 0 \<le> round_even q"
  unfolding round_even_def Let_def by auto

lemma round_even_small: "\<bar>q\<bar> < 1 / 2 \<Longrightarrow> round_even q = 0"
proof -
  assume a: "\<bar>q\<bar> < 1 / 2"
  show ?thesis
  proof (cases "0 \<le> q")
    case True
    with a have "\<lfloor>q\<rfloor> = 0" by (simp add: floor_eq_iff)
    with a True show ?thesis by (simp add: round_even_def)
  next
    case False
    with a have "\<lfloor>q\<rfloor> = - 1" by (simp add: floor_eq_iff)
    with a False show ?thesis by (simp add: round_even_def)
  qed
qed

lemma round64_tiny: "\<bar>x\<bar> < 2 powi (- 1075) \<Longrightarrow> round64 x = Finite 0"
proof -
  assume a: "\<bar>x\<bar> < 2 powi (- 1075)"
  have sub: "\<bar>x\<bar> < 2 powi (- 1022)"
    using a by (rule less_trans) simp
  have big: "\<not> 2 powi 1024 - 2 powi 970 \<le> \<bar>x\<bar>"
    using a by simp
  have "\<bar>x / 2 powi (- 1074)\<bar> = \<bar>x\<bar> * 2 powi 1074"
    by (simp add: abs_mult power_int_minus field_simps)
  also have "\<dots> < 2 powi (- 1075) * 2 powi 1074"
    using a by (intro mult_strict_right_mono) simp_all
  also have "\<dots> = 1 / 2" by (simp add: power_int_minus field_simps)
  finally have "round_even (x / 2 powi (- 1074)) = 0" by (rule round_even_small)
  then show ?thesis
    using sub big by (simp add: round64_def exponent_def)
qed

lemma round64_normal:
  assumes "2 powi (- 1022) \<le> x" and "x < 2 powi 1024 - 2 powi 970"
  shows "\<exists>r. round64 x = Finite r \<and> x / 2 \<le> r \<and> r \<le> 2 * x"
proof -
  have pos: "0 < x" using assms(1) by (rule less_le_trans [rotated]) simp
  define e where "e = \<lfloor>log 2 x\<rfloor>"
  define ulp :: real where "ulp = 2 powi (e - 52)"
  have "2 powr (of_int e) \<le> x"
    using floor_log_eq_powr_iff [of x 2 e] pos by (simp add: e_def)
  then have lo: "2 powi e \<le> x" by (simp add: powr_real_of_int')
  have ulp_pos: "0 < ulp" by (simp add: ulp_def)
  have "ulp = 2 powi e * 2 powi (- 52)" by (simp add: ulp_def power_int_diff power_int_minus field_simps)
  also have "\<dots> \<le> 2 powi e * 1" by (intro mult_left_mono) simp_all
  finally have ulp_le: "ulp \<le> x" using lo by simp
  have ex: "exponent x = e" using assms(1) pos by (simp add: exponent_def e_def)
  have nb: "\<not> 2 powi 1024 - 2 powi 970 \<le> \<bar>x\<bar>" using assms(2) pos by simp
  let ?n = "round_even (x / ulp)"
  have val: "round64 x = Finite (of_int ?n * ulp)"
    unfolding round64_def using nb by (simp only: if_False ex Let_def ulp_def)
  have "\<bar>of_int ?n - x / ulp\<bar> \<le> 1 / 2" by (rule round_even_close)
  then have "\<bar>of_int ?n - x / ulp\<bar> * ulp \<le> 1 / 2 * ulp"
    using ulp_pos by (intro mult_right_mono) simp_all
  moreover have "\<bar>of_int ?n - x / ulp\<bar> * ulp = \<bar>of_int ?n * ulp - x\<bar>"
  proof -
    have "\<bar>of_int ?n - x / ulp\<bar> * ulp = \<bar>(of_int ?n - x / ulp) * ulp\<bar>"
      using ulp_pos by (simp add: abs_mult)
    also have "(of_int ?n - x / ulp) * ulp = of_int ?n * ulp - x"
      using ulp_pos by (simp add: left_diff_distrib)
    finally show ?thesis .
  qed
  ultimately have "\<bar>of_int ?n * ulp - x\<bar> \<le> x / 2" using ulp_le by simp
  then have "x / 2 \<le> of_int ?n * ulp \<and> of_int ?n * ulp \<le> 2 * x" using pos by linarith
  with val show ?thesis by blast
qed

lemma not_negative_simps:
  "not_negative (Finite x) \<longleftrightarrow> 0 \<le> x" "not_negative PosInf" "\<not> not_negative NegInf"
  "not_negative NaN"
  by (simp_all add: not_negative_def)

lemma round64_nonneg: "0 \<le> x \<Longrightarrow> not_negative (round64 x)"
proof -
  assume x: "0 \<le> x"
  have "0 < (2::real) powi (exponent x - 52)" by simp
  then have "0 \<le> x / 2 powi (exponent x - 52)" using x by simp
  then have "0 \<le> round_even (x / 2 powi (exponent x - 52))" by (rule round_even_nonneg)
  then have "0 \<le> real_of_int (round_even (x / 2 powi (exponent x - 52))) * 2 powi (exponent x - 52)"
    by simp
  moreover have "0 < x" if "2 powi 1024 - 2 powi 970 \<le> \<bar>x\<bar>"
  proof -
    have "(0::real) < 2 powi 1024 - 2 powi 970" by simp
    with that x show ?thesis by linarith
  qed
  ultimately show ?thesis
    unfolding round64_def by (auto simp: not_negative_def Let_def simp del: power_int_numeral)
qed

lemma f_mul_self_not_negative: "not_negative (f_mul a a)"
  by (cases a) (simp_all add: round64_nonneg not_negative_simps infinity_def)

lemma f_add_not_negative: "not_negative a \<Longrightarrow> not_negative b \<Longrightarrow> not_negative (f_add a b)"
  by (cases a; cases b) (simp_all add: round64_nonneg not_negative_simps)

lemma sum_seq_not_negative: "list_all not_negative xs \<Longrightarrow> not_negative (sum_seq xs)"
proof -
  have "not_negative acc \<Longrightarrow> list_all not_negative xs \<Longrightarrow> not_negative (foldl f_add acc xs)" for acc
    by (induction xs arbitrary: acc) (auto simp: f_add_not_negative)
  moreover have "not_negative (Finite 0)" by (simp add: not_negative_simps)
  ultimately show "list_all not_negative xs \<Longrightarrow> not_negative (sum_seq xs)"
    unfolding sum_seq_def by blast
qed

lemma sum_seq_zeros: "sum_seq (replicate k (Finite 0)) = Finite 0"
  unfolding sum_seq_def by (induction k) (simp_all add: round64_zero)

lemma round64_count:
  "0 < n \<Longrightarrow> round64 (real n) = PosInf \<or> (\<exists>m. round64 (real n) = Finite m \<and> 0 < m)"
proof -
  assume n: "0 < n"
  then have one: "1 \<le> real n" by simp
  show ?thesis
  proof (cases "real n < 2 powi 1024 - 2 powi 970")
    case True
    have "(2::real) powi (- 1022) \<le> 1" by simp
    with one have "2 powi (- 1022) \<le> real n" by linarith
    from round64_normal [OF this True] one show ?thesis by force
  next
    case False
    then show ?thesis using one by (simp add: round64_def)
  qed
qed

lemma f_div_count_not_negative:
  assumes "not_negative v" and "0 < n"
  shows "not_negative (f_div v (round64 (real n)))"
proof -
  from round64_count [OF assms(2)] show ?thesis
  proof
    assume "round64 (real n) = PosInf"
    then show ?thesis using assms(1) by (cases v) (simp_all add: not_negative_simps)
  next
    assume "\<exists>m. round64 (real n) = Finite m \<and> 0 < m"
    then obtain m where m: "round64 (real n) = Finite m" "0 < m" by blast
    show ?thesis
    proof (cases v)
      case (Finite x)
      with assms(1) have "0 \<le> x / m" using m(2) by (simp add: not_negative_simps)
      then show ?thesis using Finite m by (simp add: round64_nonneg)
    qed (use assms(1) m in \<open>simp_all add: not_negative_simps infinity_def\<close>)
  qed
qed

lemma f_div_zero_count: "0 < n \<Longrightarrow> f_div (Finite 0) (round64 (real n)) = Finite 0"
  using round64_count [of n] by (auto simp: round64_zero)

lemma f_sub_self: "is_finite a \<Longrightarrow> f_sub a a = Finite 0"
  by (cases a) (simp_all add: is_finite_def f_sub_def f_neg_def round64_zero)

lemma func_f64_3:
  "func_f64 np_sin t_data [A, W, Z] =
     Inr (map (\<lambda>t. f_mul A (np_sin (f_add (f_mul W t) Z))) t_data)"
  by (simp add: func_f64_def unpack3_def ebind_def)

lemma sin64_zero: "sin64 (Finite 0) = Finite 0"
  by (simp add: sin64_def round64_zero)

lemma func_f64_origin:
  "func_f64 sin64 [Finite 0] [Finite 0, Finite 0, Finite 0] = Inr [Finite 0]"
  by (simp add: func_f64_3 round64_zero sin64_zero)

lemma lossFunction_origin:
  "lossFunction sin64 sum_seq [Finite 0] [y] [Finite 0, Finite 0, Finite 0] =
     Inr (f_div (f_add (Finite 0) (f_mul (f_sub y (Finite 0)) (f_sub y (Finite 0)))) (Finite 1))"
  by (simp add: lossFunction_def func_f64_origin ebind_def np_sub_f64_def sum_seq_def round64_one)

text \<open>
  With an observed value of \<^verbatim>\<open>1e200\<close> the square of the residual overflows and the loss
  is \<^verbatim>\<open>inf\<close>.
\<close>

lemma lossFunction_overflow:
  "lossFunction sin64 sum_seq [Finite 0] [round64 (10 ^ 200)] [Finite 0, Finite 0, Finite 0] =
     Inr PosInf"
proof -
  have "(2::real) powi (- 1022) \<le> 10 ^ 200" by (simp add: power_int_minus field_simps)
  moreover have "(10::real) ^ 200 < 2 powi 1024 - 2 powi 970" by simp
  ultimately obtain r where r: "round64 (10 ^ 200) = Finite r" "10 ^ 200 / 2 \<le> r" "r \<le> 2 * 10 ^ 200"
    using round64_normal by blast
  have "(2::real) powi (- 1022) \<le> 10 ^ 200 / 2" by (simp add: power_int_minus field_simps)
  with r(2) have lo: "2 powi (- 1022) \<le> r" by linarith
  have "(2::real) * 10 ^ 200 < 2 powi 1024 - 2 powi 970" by simp
  with r(3) have hi: "r < 2 powi 1024 - 2 powi 970" by linarith
  from round64_normal [OF lo hi] obtain r' where r': "round64 r = Finite r'"
      "r / 2 \<le> r'" "r' \<le> 2 * r"
    by blast
  have big: "10 ^ 200 / 4 \<le> r'" using r(2) r'(2) by linarith
  have "(2::real) powi 1024 - 2 powi 970 \<le> (10 ^ 200 / 4) * (10 ^ 200 / 4)" by simp
  also have "\<dots> \<le> r' * r'" using big by (intro mult_mono) simp_all
  finally have "2 powi 1024 - 2 powi 970 \<le> \<bar>r' * r'\<bar>" by simp
  moreover have "0 < r'" using big by (rule less_le_trans [rotated]) simp
  then have "0 < r' * r'" by simp
  ultimately have sq: "round64 (r' * r') = PosInf" by (simp add: round64_def)
  have res: "f_sub (Finite r) (Finite 0) = Finite r'"
    by (simp add: f_sub_def f_neg_def r'(1))
  have "lossFunction sin64 sum_seq [Finite 0] [Finite r] [Finite 0, Finite 0, Finite 0] =
      Inr PosInf"
    by (simp add: lossFunction_origin res sq infinity_def)
  with r(1) show ?thesis by simp
qed

lemmas run_defs = newton_iteration_def ebind_def reshape_col_def np_dot_def inner_def
  linalg_inv_def minor_def drop_nth_def flatten_def np_sub_def norm2_single

lemmas loss_defs = func_def funcDeriv_def unpack3_def ebind_def np_sub_def np_dot_vec_def
  inner_def lossFunctionGradient_def

section \<open>The claims\<close>

text \<open>
  Claim C1, as amended. The claim says that a converged run returns \<^verbatim>\<open>params_new\<close>, the
  vector computed in the converging iteration. The loop leaves by \<^verbatim>\<open>break\<close> before the
  assignment \<^verbatim>\<open>params = params_new\<close>, so the function returns the vector with which
  that iteration began. What holds: if the loop reaches iteration \<open>k\<close> (below
  \<^verbatim>\<open>max_iter\<close>) with the vector \<open>p\<close> and the convergence test holds there, then
  \<open>newtonMethod\<close> stops at that iteration, after \<open>k + 1\<close> iterations, and returns \<open>p\<close>; the
  vector \<^verbatim>\<open>params_new\<close> of that iteration lies within the tolerance of \<open>p\<close> and is
  discarded.
\<close>

theorem newtonMethod_converged_returns_current:
  assumes "params_at invert lossGradient tol k params_initial = Some p"
    and "newton_iteration invert lossGradient tol p = Converged params_new"
    and "int k < max_iter"
  shows "newtonMethod invert f lostFunction lossGradient params_initial max_iter tol = Inr p \<and>
         iterations
           (newtonMethod_cost invert f lostFunction lossGradient params_initial max_iter tol) =
           Suc k \<and>
         (\<exists>d. np_sub params_new p = Inr d \<and> norm2 d < tol)"
proof -
  from assms(3) obtain m where m: "nat max_iter = k + Suc m"
    by (metis add_Suc_right less_imp_Suc_add zless_nat_eq_int_zless)
  have "newton_loop invert lossGradient tol (k + Suc m) params_initial = Inr p"
    using params_at_loop [OF assms(1), of "Suc m"] assms(2) by simp
  moreover have "iterations (newton_cost invert lossGradient tol (k + Suc m) params_initial) = Suc k"
    using params_at_cost [OF assms(1), of "Suc m"] assms(2) by (simp add: Let_def)
  ultimately show ?thesis
    using m newton_iteration_Converged_close [OF assms(2)]
    by (simp add: newtonMethod_def newtonMethod_cost_def)
qed

theorem newtonMethod_converged_returns_current_witness:
  "params_at linalg_inv (linear_loss_gradient 1000) (1 / 100) 0 [0] = Some [0] \<and>
   newton_iteration linalg_inv (linear_loss_gradient 1000) (1 / 100) [0] =
     Converged [- (1 / 1000)] \<and>
   int 0 < 5 \<and>
   newtonMethod linalg_inv func (lossFunction sin64 sum_seq [Finite 0] [Finite 1]) (linear_loss_gradient 1000) [0] 5
     (1 / 100) = Inr [0]"
proof -
  have p: "params_at linalg_inv (linear_loss_gradient 1000) (1 / 100) 0 [0] = Some [0]"
    by simp
  have s: "newton_iteration linalg_inv (linear_loss_gradient 1000) (1 / 100) [0] =
      Converged [- (1 / 1000)]"
    by (simp add: run_defs linear_loss_gradient_def)
  have m: "int 0 < 5" by simp
  from newtonMethod_converged_returns_current [OF p s m, of func "lossFunction sin64 sum_seq [Finite 0] [Finite 1]"]
  show ?thesis using p s by simp
qed

text \<open>
  The claim as stated fails for the one-parameter loss with gradient \<open>2000000\<close>, started at
  \<open>[1]\<close> with the default tolerance: the first iteration computes
  \<^verbatim>\<open>params_new = [0.9999995]\<close>, the step \<open>1 / 2000000\<close> is below the tolerance, and the
  function returns \<open>[1]\<close>.
\<close>

theorem newtonMethod_converged_not_new:
  "newton_iteration linalg_inv (linear_loss_gradient 2000000) (1 / 1000000) [1] =
     Converged [1999999 / 2000000] \<and>
   newtonMethod linalg_inv func (lossFunction sin64 sum_seq [Finite 0] [Finite 1]) (linear_loss_gradient 2000000) [1] 100
     (1 / 1000000) = Inr [1] \<and>
   newtonMethod linalg_inv func (lossFunction sin64 sum_seq [Finite 0] [Finite 1]) (linear_loss_gradient 2000000) [1] 100
     (1 / 1000000) \<noteq> Inr [1999999 / 2000000]"
proof -
  have s: "newton_iteration linalg_inv (linear_loss_gradient 2000000) (1 / 1000000) [1] =
      Converged [1999999 / 2000000]"
    by (simp add: run_defs linear_loss_gradient_def)
  then show ?thesis by (simp add: newtonMethod_def newton_loop_Converged)
qed

text \<open>
  Claim C2. Wherever the gradient function returns the zero vector of length three, the
  outer product \<^verbatim>\<open>np.dot(grad, grad.T)\<close> is the 3 by 3 zero matrix and its inversion
  signals SingularMatrixError: \<open>linalg_inv\<close> does, and so does every inversion routine
  \<open>invert\<close> the theorem admits. If the loop reaches such a vector at iteration \<open>k\<close> (below
  \<^verbatim>\<open>max_iter\<close>), that iteration fails and \<open>newtonMethod\<close> ends with the error at once:
  the run has \<open>k + 1\<close> iterations and \<open>k + 1\<close> inversions, one in each, so the failed
  inversion is not tried again.
\<close>

theorem zero_gradient_singular:
  assumes "params_at invert lossGradient tol k params_initial = Some params"
    and "lossGradient params = Inr [0, 0, 0]" and "int k < max_iter"
    and "invert [[0, 0, 0], [0, 0, 0], [0, 0, 0]] = Inl SingularMatrixError"
  shows "np_dot (reshape_col [0, 0, 0]) (transpose (reshape_col [0, 0, 0])) =
           Inr [[0, 0, 0], [0, 0, 0], [0, 0, 0]] \<and>
         linalg_inv [[0, 0, 0], [0, 0, 0], [0, 0, 0]] = Inl SingularMatrixError \<and>
         newton_iteration invert lossGradient tol params = Failed SingularMatrixError \<and>
         newtonMethod invert f lostFunction lossGradient params_initial max_iter tol =
           Inl SingularMatrixError \<and>
         iterations
           (newtonMethod_cost invert f lostFunction lossGradient params_initial max_iter tol) =
           Suc k \<and>
         inversions
           (newtonMethod_cost invert f lostFunction lossGradient params_initial max_iter tol) =
           Suc k"
proof -
  have outer: "np_dot (reshape_col [0, 0, 0]) (transpose (reshape_col [0, 0, 0])) =
      Inr [[0, 0, 0], [0, 0, 0], [0, 0, 0]]"
    by (simp add: np_dot_outer)
  have step: "newton_iteration invert lossGradient tol params = Failed SingularMatrixError"
    using assms(2,4) by (rule zero_gradient_fails)
  from assms(3) obtain m where m: "nat max_iter = k + Suc m"
    by (metis add_Suc_right less_imp_Suc_add zless_nat_eq_int_zless)
  have res: "newton_loop invert lossGradient tol (k + Suc m) params_initial =
      Inl SingularMatrixError"
    using params_at_loop [OF assms(1), of "Suc m"] step by simp
  have its: "iterations (newton_cost invert lossGradient tol (k + Suc m) params_initial) =
      Suc k"
    using params_at_cost [OF assms(1), of "Suc m"] step by (simp add: Let_def)
  have invs: "inversions (newton_cost invert lossGradient tol (k + Suc m) params_initial) =
      Suc k"
    using params_at_inversions [OF assms(1), of "Suc m"] step assms(2)
    by (simp add: Let_def inversions_in_Inr)
  show ?thesis
    using outer linalg_inv_zero3 step res its invs m
    by (simp add: newtonMethod_def newtonMethod_cost_def)
qed

theorem zero_gradient_singular_witness:
  "params_at linalg_inv
     (lossFunctionGradient [0, 1 / 2, 1] [3 * sin 1, 3 * sin 2, 3 * sin 3]) (1 / 1000000) 0
     [3, 2, 1] = Some [3, 2, 1] \<and>
   lossFunctionGradient [0, 1 / 2, 1] [3 * sin 1, 3 * sin 2, 3 * sin 3] [3, 2, 1] =
     Inr [0, 0, 0] \<and>
   int 0 < 100 \<and>
   linalg_inv [[0, 0, 0], [0, 0, 0], [0, 0, 0]] = Inl SingularMatrixError \<and>
   newtonMethod linalg_inv func (lossFunction sin64 sum_seq [Finite 0] [Finite 1])
     (lossFunctionGradient [0, 1 / 2, 1] [3 * sin 1, 3 * sin 2, 3 * sin 3]) [3, 2, 1] 100
     (1 / 1000000) = Inl SingularMatrixError \<and>
   newtonMethod_cost linalg_inv func
     (lossFunction sin64 sum_seq [Finite 0] [Finite 1])
     (lossFunctionGradient [0, 1 / 2, 1] [3 * sin 1, 3 * sin 2, 3 * sin 3]) [3, 2, 1] 100
     (1 / 1000000) = \<lparr>iterations = 1, grad_evals = 1, inversions = 1\<rparr>"
proof -
  let ?G = "lossFunctionGradient [0, 1 / 2, 1] [3 * sin 1, 3 * sin 2, 3 * sin 3]"
  let ?c = "newtonMethod_cost linalg_inv func
     (lossFunction sin64 sum_seq [Finite 0] [Finite 1]) ?G [3, 2, 1] 100
     (1 / 1000000)"
  have p: "params_at linalg_inv ?G (1 / 1000000) 0 [3, 2, 1] = Some [3, 2, 1]" by simp
  have g: "?G [3, 2, 1] = Inr [0, 0, 0]"
    by (simp add: loss_defs)
  have m: "int 0 < 100" by simp
  have ge: "grad_evals ?c = iterations ?c"
    by (simp add: newtonMethod_cost_def newton_cost_grad_evals)
  from zero_gradient_singular [where invert = linalg_inv and lossGradient = ?G
      and params = "[3, 2, 1]" and params_initial = "[3, 2, 1]" and k = 0 and max_iter = 100
      and f = func
      and lostFunction = "lossFunction sin64 sum_seq [Finite 0] [Finite 1]"
      and tol = "1 / 1000000", OF p g m linalg_inv_zero3]
  have "newtonMethod linalg_inv func
      (lossFunction sin64 sum_seq [Finite 0] [Finite 1]) ?G [3, 2, 1] 100
      (1 / 1000000) = Inl SingularMatrixError" and "iterations ?c = 1" and "inversions ?c = 1"
    by simp_all
  with p g ge linalg_inv_zero3 show ?thesis by (cases ?c) simp
qed

text \<open>
  Claim C3. If all of the \<open>n\<close> iterations of a run with \<^verbatim>\<open>max_iter = n\<close> complete, none
  raising and none passing the convergence test, then \<open>newtonMethod\<close> returns a vector
  and no error: the value of \<^verbatim>\<open>params\<close> after \<open>n\<close> iterations, which for \<open>n > 0\<close> is the
  \<^verbatim>\<open>params_new\<close> that the last iteration computed. The run has exactly \<open>n\<close> iterations.
\<close>

theorem newtonMethod_exhausted:
  assumes "\<forall>k<n. \<exists>p params_new. params_at invert lossGradient tol k params_initial = Some p \<and>
             newton_iteration invert lossGradient tol p = Continue params_new"
  shows "\<exists>r. newtonMethod invert f lostFunction lossGradient params_initial (int n) tol = Inr r \<and>
           params_at invert lossGradient tol n params_initial = Some r \<and>
           (0 < n \<longrightarrow>
              (\<exists>p. params_at invert lossGradient tol (n - 1) params_initial = Some p \<and>
                   newton_iteration invert lossGradient tol p = Continue r)) \<and>
           iterations
             (newtonMethod_cost invert f lostFunction lossGradient params_initial (int n) tol) = n"
proof -
  from assms obtain r where r: "params_at invert lossGradient tol n params_initial = Some r"
    using params_at_all_Continue [of n invert lossGradient tol params_initial] by blast
  have res: "newtonMethod invert f lostFunction lossGradient params_initial (int n) tol = Inr r"
    using params_at_loop [OF r, of 0] by (simp add: newtonMethod_def)
  have cost: "iterations
      (newtonMethod_cost invert f lostFunction lossGradient params_initial (int n) tol) = n"
    using params_at_cost [OF r, of 0] by (simp add: newtonMethod_cost_def)
  have last: "\<exists>p. params_at invert lossGradient tol (n - 1) params_initial = Some p \<and>
      newton_iteration invert lossGradient tol p = Continue r" if "0 < n"
  proof -
    from that obtain m where "n = Suc m" by (cases n) auto
    with r show ?thesis
      using params_at_Suc [of invert lossGradient tol m params_initial r]
      by (simp del: params_at.simps)
  qed
  from r res cost last show ?thesis by blast
qed

theorem newtonMethod_exhausted_witness:
  "params_at linalg_inv (linear_loss_gradient 1) (1 / 1000000) 0 [0] = Some [0] \<and>
   newton_iteration linalg_inv (linear_loss_gradient 1) (1 / 1000000) [0] = Continue [- 1] \<and>
   params_at linalg_inv (linear_loss_gradient 1) (1 / 1000000) 1 [0] = Some [- 1] \<and>
   newton_iteration linalg_inv (linear_loss_gradient 1) (1 / 1000000) [- 1] = Continue [- 2] \<and>
   newtonMethod linalg_inv func (lossFunction sin64 sum_seq [Finite 0] [Finite 1]) (linear_loss_gradient 1) [0] 2
     (1 / 1000000) = Inr [- 2]"
proof -
  have s0: "newton_iteration linalg_inv (linear_loss_gradient 1) (1 / 1000000) [0] =
      Continue [- 1]"
    by (simp add: run_defs linear_loss_gradient_def)
  have s1: "newton_iteration linalg_inv (linear_loss_gradient 1) (1 / 1000000) [- 1] =
      Continue [- 2]"
    by (simp add: run_defs linear_loss_gradient_def)
  have p0: "params_at linalg_inv (linear_loss_gradient 1) (1 / 1000000) 0 [0] = Some [0]"
    by simp
  have p1: "params_at linalg_inv (linear_loss_gradient 1) (1 / 1000000) 1 [0] = Some [- 1]"
    by (simp add: s0)
  have p2: "params_at linalg_inv (linear_loss_gradient 1) (1 / 1000000) 2 [0] = Some [- 2]"
    by (simp add: s0 s1 numeral_2_eq_2)
  have hyp: "\<forall>k<2. \<exists>p params_new.
      params_at linalg_inv (linear_loss_gradient 1) (1 / 1000000) k [0] = Some p \<and>
      newton_iteration linalg_inv (linear_loss_gradient 1) (1 / 1000000) p = Continue params_new"
    using s0 s1 p0 p1 by (auto simp: less_2_cases_iff)
  from newtonMethod_exhausted [OF hyp, of func "lossFunction sin64 sum_seq [Finite 0] [Finite 1]"] p2
  have "newtonMethod linalg_inv func (lossFunction sin64 sum_seq [Finite 0] [Finite 1]) (linear_loss_gradient 1) [0] 2
     (1 / 1000000) = Inr [- 2]" by auto
  with s0 s1 p0 p1 show ?thesis by simp
qed




text \<open>
  Claim C5. With \<^verbatim>\<open>max_iter = 0\<close> the loop body never runs: for every inversion routine,
  gradient function, initial vector and tolerance, \<open>newtonMethod\<close> returns the initial
  vector unchanged, and the run evaluates no gradient and inverts no matrix. The
  gradient function may even be one that always raises.
\<close>

theorem newtonMethod_zero_iterations:
  "newtonMethod invert f lostFunction lossGradient params_initial 0 tol = Inr params_initial \<and>
   newtonMethod_cost invert f lostFunction lossGradient params_initial 0 tol =
     \<lparr>iterations = 0, grad_evals = 0, inversions = 0\<rparr>"
  by (simp add: newtonMethod_def newtonMethod_cost_def)

theorem newtonMethod_zero_iterations_witness:
  "newtonMethod linalg_inv func (lossFunction sin64 sum_seq [Finite 0] [Finite 1]) raising_gradient [1, 1, 1] 0
     (1 / 1000000) = Inr [1, 1, 1] \<and>
   newtonMethod_cost linalg_inv func (lossFunction sin64 sum_seq [Finite 0] [Finite 1]) raising_gradient [1, 1, 1] 0
     (1 / 1000000) = \<lparr>iterations = 0, grad_evals = 0, inversions = 0\<rparr>"
  by (rule newtonMethod_zero_iterations)

text \<open>
  Claim C6, as amended. The claim says that the loss is the real number
  \<open>(1 / n) * \<Sum>\<^sub>i (y\<^sub>i - A sin (W t\<^sub>i + Z))\<^sup>2\<close>, not negative, and zero only for a perfect fit. The
  function computes in float64. What holds, for three parameters and \<open>n > 0\<close> samples and
  for every summation routine that keeps a sum of zeros at zero and a sum of numbers
  that are not negative from becoming negative: \<open>lossFunction\<close> returns the float64
  value of \<^verbatim>\<open>np.sum((y - pred) ** 2) / n\<close>, every operation rounded; the value is never
  negative (it is a finite number from zero on, \<^verbatim>\<open>inf\<close> or \<^verbatim>\<open>nan\<close>); and it is zero
  whenever every prediction equals its finite observed value. That a zero loss means a
  perfect fit is not claimed: a square can underflow.
\<close>

theorem lossFunction_float64:
  assumes "length t_data = length y_data" and "y_data \<noteq> []"
    and "\<forall>xs. list_all not_negative xs \<longrightarrow> not_negative (np_sum xs)"
    and "\<forall>k. np_sum (replicate k (Finite 0)) = Finite 0"
  shows "\<exists>pred v.
           func_f64 np_sin t_data [A, W, Z] = Inr pred \<and>
           lossFunction np_sin np_sum t_data y_data [A, W, Z] = Inr v \<and>
           v = f_div (np_sum (map2 (\<lambda>y p. f_mul (f_sub y p) (f_sub y p)) y_data pred))
                 (round64 (real (length y_data))) \<and>
           not_negative v \<and>
           (pred = y_data \<and> list_all is_finite y_data \<longrightarrow> v = Finite 0)"
proof -
  let ?pred = "map (\<lambda>t. f_mul A (np_sin (f_add (f_mul W t) Z))) t_data"
  let ?sq = "map2 (\<lambda>y p. f_mul (f_sub y p) (f_sub y p)) y_data ?pred"
  let ?v = "f_div (np_sum ?sq) (round64 (real (length y_data)))"
  have n: "0 < length y_data" using assms(2) by simp
  have sq: "map (\<lambda>e. f_mul e e) (map2 f_sub y_data ?pred) = ?sq"
    by (simp add: map_zip_map2 split_def) 
  have val: "lossFunction np_sin np_sum t_data y_data [A, W, Z] = Inr ?v"
    using assms(1) by (simp add: lossFunction_def func_f64_3 ebind_def np_sub_f64_def sq del: map_map)
  have "list_all not_negative ?sq"
    by (simp add: list_all_iff f_mul_self_not_negative split_def)
  then have "not_negative (np_sum ?sq)" using assms(3) by blast
  then have nn: "not_negative ?v" using n by (rule f_div_count_not_negative)
  have zero: "?v = Finite 0" if "?pred = y_data" "list_all is_finite y_data"
  proof -
    have "map2 (\<lambda>y p. f_mul (f_sub y p) (f_sub y p)) y_data y_data =
        replicate (length y_data) (Finite 0)"
      using that(2) by (induction y_data) (simp_all add: f_sub_self round64_zero)
    then have "?sq = replicate (length y_data) (Finite 0)" using that(1) by simp
    then show ?thesis using assms(4) n by (simp add: f_div_zero_count)
  qed
  from val nn zero show ?thesis by (auto simp: func_f64_3)
qed

theorem lossFunction_float64_witness:
  "lossFunction sin64 sum_seq [Finite 0] [Finite 0] [Finite 0, Finite 0, Finite 0] =
     Inr (Finite 0) \<and>
   lossFunction sin64 sum_seq [Finite 0] [Finite 1] [Finite 0, Finite 0, Finite 0] =
     Inr (Finite 1) \<and> not_negative (Finite 1)"
proof -
  have s1: "\<forall>xs. list_all not_negative xs \<longrightarrow> not_negative (sum_seq xs)"
    by (simp add: sum_seq_not_negative)
  have s2: "\<forall>k. sum_seq (replicate k (Finite 0)) = Finite 0"
    by (simp add: sum_seq_zeros)
  have l0: "length [Finite 0] = length [Finite 0]" and n0: "[Finite 0] \<noteq> []" by simp_all
  have l1: "length [Finite 0] = length [Finite 1]" and n1: "[Finite 1] \<noteq> []" by simp_all
  from lossFunction_float64 [where np_sin = sin64 and np_sum = sum_seq and A = "Finite 0"
      and W = "Finite 0" and Z = "Finite 0", OF l0 n0 s1 s2]
  have a: "lossFunction sin64 sum_seq [Finite 0] [Finite 0] [Finite 0, Finite 0, Finite 0] =
      Inr (Finite 0)"
    by (auto simp: func_f64_origin is_finite_def)
  from lossFunction_float64 [where np_sin = sin64 and np_sum = sum_seq and A = "Finite 0"
      and W = "Finite 0" and Z = "Finite 0", OF l1 n1 s1 s2]
  have b: "lossFunction sin64 sum_seq [Finite 0] [Finite 1] [Finite 0, Finite 0, Finite 0] =
      Inr (Finite 1)"
    by (auto simp: func_f64_origin sum_seq_def f_sub_def f_neg_def round64_one)
  from a b show ?thesis by (simp add: not_negative_simps)
qed

text \<open>
  The claim as stated fails for the sample \<open>t = 0\<close>, \<^verbatim>\<open>y = 1e-200\<close> at the parameters
  \<open>[0, 0, 0]\<close>: the prediction is \<open>0\<close>, the observed value is not, and the square of the
  residual underflows, so the loss is \<open>0\<close> for a fit that is not perfect.
\<close>

theorem lossFunction_underflow:
  "func_f64 sin64 [Finite 0] [Finite 0, Finite 0, Finite 0] = Inr [Finite 0] \<and>
   round64 (1 / 10 ^ 200) \<noteq> Finite 0 \<and>
   lossFunction sin64 sum_seq [Finite 0] [round64 (1 / 10 ^ 200)] [Finite 0, Finite 0, Finite 0] =
     Inr (Finite 0)"
proof -
  have "(2::real) powi (- 1022) \<le> 1 / 10 ^ 200" by (simp add: power_int_minus field_simps)
  moreover have "(1::real) / 10 ^ 200 < 2 powi 1024 - 2 powi 970" by simp
  ultimately obtain r where r: "round64 (1 / 10 ^ 200) = Finite r"
      "1 / 10 ^ 200 / 2 \<le> r" "r \<le> 2 * (1 / 10 ^ 200)"
    using round64_normal by blast
  have "(2::real) powi (- 1022) \<le> 1 / 10 ^ 200 / 2" by (simp add: power_int_minus field_simps)
  with r(2) have lo: "2 powi (- 1022) \<le> r" by linarith
  have "(2::real) * (1 / 10 ^ 200) < 2 powi 1024 - 2 powi 970" by simp
  with r(3) have hi: "r < 2 powi 1024 - 2 powi 970" by linarith
  from round64_normal [OF lo hi] obtain r' where r': "round64 r = Finite r'"
      "r / 2 \<le> r'" "r' \<le> 2 * r"
    by blast
  have pos: "0 < r" using r(2) by (rule less_le_trans [rotated]) simp
  then have pos': "0 < r'" using r'(2) by linarith
  have "r' \<le> 4 / 10 ^ 200" using r(3) r'(3) by linarith
  then have "r' * r' \<le> (4 / 10 ^ 200) * (4 / 10 ^ 200)"
    using pos' by (intro mult_mono) simp_all
  also have "\<dots> < 2 powi (- 1075)" by (simp add: power_int_minus field_simps)
  finally have "\<bar>r' * r'\<bar> < 2 powi (- 1075)" using pos' by simp
  then have sq: "round64 (r' * r') = Finite 0" by (rule round64_tiny)
  have res: "f_sub (Finite r) (Finite 0) = Finite r'"
    by (simp add: f_sub_def f_neg_def r'(1))
  have "lossFunction sin64 sum_seq [Finite 0] [Finite r] [Finite 0, Finite 0, Finite 0] =
      Inr (Finite 0)"
    by (simp add: lossFunction_origin res sq round64_zero)
  with r(1) pos show ?thesis by (simp add: func_f64_origin)
qed

text \<open>
  Claim C7. For three parameters and \<open>n\<close> samples, \<open>funcDeriv\<close> returns the matrix \<open>D\<close> with
  the rows \<open>sin (W t\<^sub>i + Z)\<close>, \<open>A t\<^sub>i cos (W t\<^sub>i + Z)\<close> and \<open>A cos (W t\<^sub>i + Z)\<close>, and
  \<open>lossFunctionGradient\<close> returns the three numbers \<open>- 2 * \<Sum>\<^sub>i D\<^sub>r\<^sub>i e\<^sub>i\<close>, where
  \<open>e\<^sub>i = y\<^sub>i - A sin (W t\<^sub>i + Z)\<close> is the residual of sample \<open>i\<close>.
\<close>

theorem lossFunctionGradient_formula:
  assumes "length t_data = length y_data"
  shows "funcDeriv t_data [A, W, Z] =
           Inr [map (\<lambda>t. sin (W * t + Z)) t_data,
                map (\<lambda>t. A * t * cos (W * t + Z)) t_data,
                map (\<lambda>t. A * cos (W * t + Z)) t_data] \<and>
         lossFunctionGradient t_data y_data [A, W, Z] =
           Inr [- 2 * (\<Sum>i<length y_data. sin (W * t_data ! i + Z) *
                         (y_data ! i - A * sin (W * t_data ! i + Z))),
                - 2 * (\<Sum>i<length y_data. A * t_data ! i * cos (W * t_data ! i + Z) *
                         (y_data ! i - A * sin (W * t_data ! i + Z))),
                - 2 * (\<Sum>i<length y_data. A * cos (W * t_data ! i + Z) *
                         (y_data ! i - A * sin (W * t_data ! i + Z)))]"
proof -
  let ?n = "length y_data"
  let ?r = "\<lambda>i. y_data ! i - A * sin (W * t_data ! i + Z)"
  let ?err = "map2 (-) y_data (map (\<lambda>t. A * sin (W * t + Z)) t_data)"
  have len: "length ?err = length t_data" using assms by simp
  have row: "inner (map d t_data) ?err = (\<Sum>i<?n. d (t_data ! i) * ?r i)" for d
  proof -
    have "inner (map d t_data) ?err =
          (\<Sum>i<length (map d t_data). map d t_data ! i * ?err ! i)"
      by (rule inner_sum_nth) (use assms in simp)
    also have "\<dots> = (\<Sum>i<?n. d (t_data ! i) * ?r i)"
      using assms by (intro sum.cong) simp_all
    finally show ?thesis .
  qed
  have dot: "np_dot_vec [map d1 t_data, map d2 t_data, map d3 t_data] ?err =
      Inr [\<Sum>i<?n. d1 (t_data ! i) * ?r i, \<Sum>i<?n. d2 (t_data ! i) * ?r i,
           \<Sum>i<?n. d3 (t_data ! i) * ?r i]" for d1 d2 d3
    using assms by (simp add: np_dot_vec_def row)
  show ?thesis
    using assms
    by (simp add: lossFunctionGradient_def func_3 funcDeriv_3 ebind_def np_sub_same_length dot)
qed

theorem lossFunctionGradient_formula_witness:
  "length [0, 1 :: real] = length [1, 3 :: real] \<and>
   funcDeriv [0, 1] [2, 0, 0] = Inr [[0, 0], [0, 2], [2, 2]] \<and>
   lossFunctionGradient [0, 1] [1, 3] [2, 0, 0] = Inr [0, - 12, - 16]"
proof -
  have l: "length [0, 1 :: real] = length [1, 3 :: real]" by simp
  from lossFunctionGradient_formula [OF l, of 2 0 0]
  show ?thesis by (simp add: lessThan_Suc)
qed




text \<open>
  Claim C9. The result of \<open>newtonMethod\<close> does not depend on its arguments \<^verbatim>\<open>func\<close> and
  \<^verbatim>\<open>lostFunction\<close>: two calls that differ only in these two arguments, which may
  even be of different types, return the same value. The body of the loop calls
  \<^verbatim>\<open>lossFunctionGradient\<close> only.
\<close>

theorem newtonMethod_ignores_func_and_loss:
  "newtonMethod invert f lostFunction lossGradient params_initial max_iter tol =
   newtonMethod invert f' lostFunction' lossGradient params_initial max_iter tol"
  by (simp add: newtonMethod_def)

theorem newtonMethod_ignores_func_and_loss_witness:
  "newtonMethod linalg_inv func (lossFunction sin64 sum_seq [Finite 0] [Finite 1]) (linear_loss_gradient 1) [0] 2
     (1 / 1000000) =
   newtonMethod linalg_inv funcDeriv (lossFunction sin64 sum_seq [] []) (linear_loss_gradient 1) [0] 2
     (1 / 1000000)"
  by (rule newtonMethod_ignores_func_and_loss)

text \<open>
  Claim C10. \<open>newtonMethod\<close> is a total function: the loop is a recursion on the number
  of iterations left, so it ends for every \<^verbatim>\<open>max_iter\<close> and every gradient function. A
  run begins at most \<^verbatim>\<open>max_iter\<close> iterations (none when \<^verbatim>\<open>max_iter\<close> is negative),
  evaluates the gradient at most \<^verbatim>\<open>max_iter\<close> times and inverts at most \<^verbatim>\<open>max_iter\<close>
  matrices. A run that returns a vector after fewer than \<^verbatim>\<open>max_iter\<close> iterations
  left the loop through the convergence \<^verbatim>\<open>break\<close>: its last iteration began at the
  returned vector and passed the convergence test.
\<close>

theorem newtonMethod_bounded:
  "iterations (newtonMethod_cost invert f lostFunction lossGradient params_initial max_iter tol)
     \<le> nat max_iter \<and>
   grad_evals (newtonMethod_cost invert f lostFunction lossGradient params_initial max_iter tol)
     \<le> nat max_iter \<and>
   inversions (newtonMethod_cost invert f lostFunction lossGradient params_initial max_iter tol)
     \<le> nat max_iter \<and>
   (newtonMethod invert f lostFunction lossGradient params_initial max_iter tol = Inr r \<and>
    iterations (newtonMethod_cost invert f lostFunction lossGradient params_initial max_iter tol)
      < nat max_iter \<longrightarrow>
    (\<exists>params_new.
       params_at invert lossGradient tol
         (iterations
            (newtonMethod_cost invert f lostFunction lossGradient params_initial max_iter tol) - 1)
         params_initial = Some r \<and>
       newton_iteration invert lossGradient tol r = Converged params_new))"
proof -
  let ?c = "newton_cost invert lossGradient tol (nat max_iter) params_initial"
  have it: "iterations ?c \<le> nat max_iter" by (rule newton_cost_iterations_le)
  have gr: "grad_evals ?c \<le> nat max_iter" using it by (simp add: newton_cost_grad_evals)
  have iv: "inversions ?c \<le> nat max_iter"
    using it newton_cost_inversions_le [of invert lossGradient tol "nat max_iter" params_initial]
    by linarith
  show ?thesis
    unfolding newtonMethod_def newtonMethod_cost_def
    using it gr iv newton_loop_early_exit [of invert lossGradient tol "nat max_iter" params_initial r]
    by blast
qed

theorem newtonMethod_bounded_witness:
  "newtonMethod linalg_inv func (lossFunction sin64 sum_seq [Finite 0] [Finite 1]) (linear_loss_gradient 2000000) [1]
     100 (1 / 1000000) = Inr [1] \<and>
   newtonMethod_cost linalg_inv func (lossFunction sin64 sum_seq [Finite 0] [Finite 1]) (linear_loss_gradient 2000000)
     [1] 100 (1 / 1000000) = \<lparr>iterations = 1, grad_evals = 1, inversions = 1\<rparr> \<and>
   (1::nat) < nat 100 \<and>
   (\<exists>params_new.
       params_at linalg_inv (linear_loss_gradient 2000000) (1 / 1000000) 0 [1] = Some [1] \<and>
       newton_iteration linalg_inv (linear_loss_gradient 2000000) (1 / 1000000) [1] =
         Converged params_new)"
proof -
  have step: "newton_iteration linalg_inv (linear_loss_gradient 2000000) (1 / 1000000) [1] =
      Converged [1 - 1 / 2000000]"
    by (simp add: run_defs linear_loss_gradient_def)
  have res: "newtonMethod linalg_inv func (lossFunction sin64 sum_seq [Finite 0] [Finite 1])
      (linear_loss_gradient 2000000) [1] 100 (1 / 1000000) = Inr [1]"
    by (simp add: newtonMethod_def newton_loop_Converged [OF step])
  have cost: "newtonMethod_cost linalg_inv func (lossFunction sin64 sum_seq [Finite 0] [Finite 1])
      (linear_loss_gradient 2000000) [1] 100 (1 / 1000000) =
      \<lparr>iterations = 1, grad_evals = 1, inversions = 1\<rparr>"
    by (simp add: newtonMethod_cost_def newton_cost_stop step inversions_in_Inr
        linear_loss_gradient_def)
  from newtonMethod_bounded [of linalg_inv func "lossFunction sin64 sum_seq [Finite 0] [Finite 1]"
      "linear_loss_gradient 2000000" "[1]" 100 "1 / 1000000" "[1]"]
  show ?thesis using res cost by simp
qed

end
